theory Spec2Isabelle
  imports Complex_Main "HOL-Library.Sublist"
begin

section \<open>Python primitives used by \<^verbatim>\<open>cortex_memory/testing.py\<close>\<close>

text \<open>
  Strings are \<open>string\<close>. \<^verbatim>\<open>str.lower()\<close> is a builtin of Python that folds every cased
  letter of Unicode, and it is not defined here: every method that calls it takes the
  folding function as its first argument \<open>lw\<close>, and every property is proved for every
  such function. \<open>ascii_lower\<close> is what \<^verbatim>\<open>str.lower()\<close> computes on a string of ASCII
  characters (the letters \<open>A\<close>..\<open>Z\<close>, codes 65..90, move to \<open>a\<close>..\<open>z\<close>, and nothing else
  changes); it stands for \<open>lw\<close> only where an example is evaluated, and the strings of
  the examples are all ASCII.
\<close>

definition char_lower :: "char \<Rightarrow> char" where
  "char_lower c =
     (let n = (of_char c :: nat) in if 65 \<le> n \<and> n \<le> 90 then char_of (n + 32) else c)"

definition ascii_lower :: "string \<Rightarrow> string" where
  "ascii_lower s = map char_lower s"

text \<open>
  \<^verbatim>\<open>q in t\<close> on two \<^verbatim>\<open>str\<close> values: \<open>q\<close> occurs in \<open>t\<close> as a contiguous substring
  (the empty string occurs in every string).
\<close>

fun startswith :: "string \<Rightarrow> string \<Rightarrow> bool" where
  "startswith t [] = True"
| "startswith [] (a # q) = False"
| "startswith (b # t) (a # q) = (a = b \<and> startswith t q)"

fun str_in :: "string \<Rightarrow> string \<Rightarrow> bool" where
  "str_in q [] = (q = [])"
| "str_in q (c # t) = (startswith (c # t) q \<or> str_in q t)"

text \<open>
  \<^verbatim>\<open>a or b\<close>: Python returns \<open>a\<close> when it is truthy and \<open>b\<close> otherwise. An empty
  string, an empty list, an empty dict and \<^verbatim>\<open>None\<close> are falsy. An optional argument
  (\<^verbatim>\<open>Optional[List[str]] = None\<close>) is an \<open>option\<close>.
\<close>

definition or_str :: "string \<Rightarrow> string \<Rightarrow> string" where
  "or_str a b = (if a = [] then b else a)"

definition or_empty :: "'a list option \<Rightarrow> 'a list" where
  "or_empty a = (case a of None \<Rightarrow> [] | Some xs \<Rightarrow> (if xs = [] then [] else xs))"

text \<open>
  \<^verbatim>\<open>xs[:limit]\<close> for a Python \<^verbatim>\<open>int\<close>: the first \<open>limit\<close> elements when
  \<open>limit \<ge> 0\<close>, and all but the last \<open>-limit\<close> elements when \<open>limit < 0\<close>.
\<close>

definition slice_to :: "'a list \<Rightarrow> int \<Rightarrow> 'a list" where
  "slice_to xs limit =
     (if 0 \<le> limit then take (nat limit) xs
      else take (nat (int (length xs) + limit)) xs)"

text \<open>
  A \<^verbatim>\<open>dict\<close> keeps its keys in insertion order and \<^verbatim>\<open>.values()\<close> iterates in that
  order, which \<^verbatim>\<open>search\<close> observes; so a dict is an association list.
  \<^verbatim>\<open>d[k] = v\<close> replaces the value of a key that is present in place and appends a
  new key at the end; \<^verbatim>\<open>d.get(k)\<close> is \<^verbatim>\<open>None\<close> for a missing key.
\<close>

fun dict_set :: "('k \<times> 'v) list \<Rightarrow> 'k \<Rightarrow> 'v \<Rightarrow> ('k \<times> 'v) list" where
  "dict_set [] k v = [(k, v)]"
| "dict_set ((k', v') # d) k v =
     (if k' = k then (k, v) # d else (k', v') # dict_set d k v)"

fun dict_get :: "('k \<times> 'v) list \<Rightarrow> 'k \<Rightarrow> 'v option" where
  "dict_get [] k = None"
| "dict_get ((k', v') # d) k = (if k' = k then Some v' else dict_get d k)"

definition dict_keys :: "('k \<times> 'v) list \<Rightarrow> 'k list" where
  "dict_keys d = map fst d"

definition dict_values :: "('k \<times> 'v) list \<Rightarrow> 'v list" where
  "dict_values d = map snd d"

section \<open>Data held and returned by \<^verbatim>\<open>MockCortex\<close>\<close>

text \<open>
  The dict literal that \<^verbatim>\<open>store\<close> writes under the new id, one field per key.
  \<^verbatim>\<open>_MockNode(data)\<close> copies every key of the dict into an attribute of the same
  name, so a \<^verbatim>\<open>_MockNode\<close> is the same record. The float arguments
  (\<^verbatim>\<open>importance\<close>, and the score \<^verbatim>\<open>0.9\<close>) are reals; they are only stored, copied
  and compared with 0.
\<close>

record node_data =
  n_id :: string
  n_kind :: string
  n_title :: string
  n_body :: string
  n_tags :: "string list"
  n_importance :: real
  n_metadata :: "(string \<times> string) list"
  n_source_agent :: string

definition MockNode :: "node_data \<Rightarrow> node_data" where
  "MockNode data = data"

text \<open>\<^verbatim>\<open>_MockSearchResult(score, node)\<close>.\<close>

record search_result =
  sr_score :: real
  sr_node_id :: string
  sr_title :: string
  sr_kind :: string
  sr_body :: string
  sr_importance :: real

definition MockSearchResult :: "real \<Rightarrow> node_data \<Rightarrow> search_result" where
  "MockSearchResult score node =
     \<lparr>sr_score = score, sr_node_id = n_id node, sr_title = n_title node,
      sr_kind = n_kind node, sr_body = n_body node, sr_importance = n_importance node\<rparr>"

text \<open>The class \<^verbatim>\<open>_MockBriefing\<close> built by \<^verbatim>\<open>briefing_full\<close>.\<close>

record mock_briefing =
  b_text :: string
  b_nodes_consulted :: nat
  b_cached :: bool
  b_generated_at :: string

text \<open>\<^verbatim>\<open>models.Edge\<close>, and the dict \<^verbatim>\<open>{"nodes": ..., "edges": ...}\<close> of \<^verbatim>\<open>traverse\<close>.\<close>

record edge =
  e_id :: string
  e_from_id :: string
  e_to_id :: string
  e_relation :: string
  e_weight :: real

record traversal =
  tr_nodes :: "node_data list"
  tr_edges :: "edge list"

text \<open>
  The object state: \<^verbatim>\<open>self._nodes\<close> and \<^verbatim>\<open>self._call_log\<close>.
\<close>

record mock_cortex =
  nodes :: "(string \<times> node_data) list"
  call_log :: "(string \<times> string \<times> string) list"

section \<open>The methods of \<^verbatim>\<open>MockCortex\<close>\<close>

text \<open>\<^verbatim>\<open>__init__\<close>: both containers start empty.\<close>

definition MockCortex :: mock_cortex where
  "MockCortex = \<lparr>nodes = [], call_log = []\<rparr>"

text \<open>
  \<^verbatim>\<open>store\<close>. The value drawn by \<^verbatim>\<open>str(uuid.uuid4())\<close> is the last argument
  \<open>uuid4\<close>; the method returns it together with the updated object. The method has no
  \<^verbatim>\<open>raise\<close> and no check of its arguments, so the result has no error branch.
\<close>

definition store ::
  "mock_cortex \<Rightarrow> string \<Rightarrow> string \<Rightarrow> string \<Rightarrow> string list option \<Rightarrow> real \<Rightarrow>
   (string \<times> string) list option \<Rightarrow> string \<Rightarrow> string \<Rightarrow> string \<times> mock_cortex" where
  "store self kind title body tags importance metadata source_agent uuid4 =
     (let node_id = uuid4;
          data = \<lparr>n_id = node_id, n_kind = kind, n_title = title,
                  n_body = or_str body title, n_tags = or_empty tags,
                  n_importance = importance, n_metadata = or_empty metadata,
                  n_source_agent = source_agent\<rparr>
      in (node_id,
          self\<lparr>nodes := dict_set (nodes self) node_id data,
               call_log := call_log self @ [(''store'', kind, title)]\<rparr>))"

text \<open>
  \<^verbatim>\<open>search\<close>: the comprehension keeps, in the order of \<^verbatim>\<open>self._nodes.values()\<close>, the
  nodes whose lower-cased title or body contains the lower-cased query, wraps each
  with the constant score \<^verbatim>\<open>0.9\<close>, and the result is cut by \<^verbatim>\<open>matches[:limit]\<close>.
  \<open>lw\<close> is \<^verbatim>\<open>str.lower\<close>.
\<close>

definition node_matches :: "(string \<Rightarrow> string) \<Rightarrow> string \<Rightarrow> node_data \<Rightarrow> bool" where
  "node_matches lw q n = (str_in q (lw (n_title n)) \<or> str_in q (lw (n_body n)))"

definition search ::
  "(string \<Rightarrow> string) \<Rightarrow> mock_cortex \<Rightarrow> string \<Rightarrow> int \<Rightarrow> search_result list" where
  "search lw self query limit =
     (let q = lw query;
          matches = map (\<lambda>n. MockSearchResult (9 / 10) (MockNode n))
                        (filter (node_matches lw q) (dict_values (nodes self)))
      in slice_to matches limit)"

text \<open>\<^verbatim>\<open>search_hybrid\<close> passes query and limit on and never reads \<^verbatim>\<open>anchor_ids\<close>.\<close>

definition search_hybrid ::
  "(string \<Rightarrow> string) \<Rightarrow> mock_cortex \<Rightarrow> string \<Rightarrow> string list option \<Rightarrow> int \<Rightarrow>
   search_result list" where
  "search_hybrid lw self query anchor_ids limit = search lw self query limit"

text \<open>\<^verbatim>\<open>briefing\<close> and \<^verbatim>\<open>briefing_full\<close>; neither assigns to \<^verbatim>\<open>self\<close>.\<close>

definition briefing :: "mock_cortex \<Rightarrow> string \<Rightarrow> bool \<Rightarrow> string" where
  "briefing self agent_id compact_flag = ''[Mock briefing for '' @ agent_id @ '']''"

definition briefing_full :: "mock_cortex \<Rightarrow> string \<Rightarrow> bool \<Rightarrow> mock_briefing" where
  "briefing_full self agent_id compact_flag =
     \<lparr>b_text = ''[Mock briefing for '' @ agent_id @ '']'',
      b_nodes_consulted = length (nodes self),
      b_cached = False,
      b_generated_at = ''''\<rparr>"

text \<open>
  \<^verbatim>\<open>get_node\<close>: \<^verbatim>\<open>_MockNode(data) if data else None\<close>. Every dict that \<^verbatim>\<open>store\<close>
  writes has eight keys and is truthy, so the test fails only for a missing id.
\<close>

definition get_node :: "mock_cortex \<Rightarrow> string \<Rightarrow> node_data option" where
  "get_node self node_id =
     (case dict_get (nodes self) node_id of
        None \<Rightarrow> None
      | Some data \<Rightarrow> Some (MockNode data))"

text \<open>\<^verbatim>\<open>traverse\<close> returns the same literal for every argument; \<open>depth\<close> is an \<^verbatim>\<open>int\<close>.\<close>

definition traverse :: "mock_cortex \<Rightarrow> string \<Rightarrow> int \<Rightarrow> string \<Rightarrow> traversal" where
  "traverse self node_id depth direction = \<lparr>tr_nodes = [], tr_edges = []\<rparr>"

text \<open>
  A sequence of \<^verbatim>\<open>store\<close> calls, each given by its arguments and the id it drew.
\<close>

record store_call =
  c_kind :: string
  c_title :: string
  c_body :: string
  c_tags :: "string list option"
  c_importance :: real
  c_metadata :: "(string \<times> string) list option"
  c_source_agent :: string
  c_uuid4 :: string

definition store_call :: "mock_cortex \<Rightarrow> store_call \<Rightarrow> mock_cortex" where
  "store_call self c =
     snd (store self (c_kind c) (c_title c) (c_body c) (c_tags c) (c_importance c)
            (c_metadata c) (c_source_agent c) (c_uuid4 c))"

fun store_calls :: "mock_cortex \<Rightarrow> store_call list \<Rightarrow> mock_cortex" where
  "store_calls self [] = self"
| "store_calls self (c # cs) = store_calls (store_call self c) cs"

text \<open>
  A call that passes only \<^verbatim>\<open>kind\<close> and \<^verbatim>\<open>title\<close> takes the keyword defaults of the
  signature: \<^verbatim>\<open>body=""\<close>, \<^verbatim>\<open>tags=None\<close>, \<^verbatim>\<open>importance=0.5\<close>, \<^verbatim>\<open>metadata=None\<close>,
  \<^verbatim>\<open>source_agent=""\<close>.
\<close>

definition default_call :: "string \<Rightarrow> string \<Rightarrow> string \<Rightarrow> store_call" where
  "default_call kind title uuid4 =
     \<lparr>c_kind = kind, c_title = title, c_body = '''', c_tags = None, c_importance = 1 / 2,
      c_metadata = None, c_source_agent = '''', c_uuid4 = uuid4\<rparr>"

section \<open>The traversal engine\<close>

text \<open>
  \<^verbatim>\<open>Cortex.traverse\<close> (client.py) sends \<^verbatim>\<open>start_ids=[node_id]\<close>, \<^verbatim>\<open>max_depth=depth\<close> and the
  direction to the server's \<^verbatim>\<open>Traverse\<close> and hands its nodes and edges back; the server
  is not among the Python sources. Its walk is written here after section 4.3 of the
  specification. The graph store is the list \<open>es\<close> of its \<^verbatim>\<open>Edge\<close> records, a node
  is its id, and \<open>max_depth\<close> is a natural number.
\<close>

text \<open>
  Modelled from the spec: the direction filter of \<^verbatim>\<open>Traverse\<close>, "direction in
  {outgoing, incoming, both}".
\<close>

datatype direction = Outgoing | Incoming | Both

text \<open>
  Modelled from the spec: "following edges filtered by direction". The edges that
  leave node \<open>a\<close> in the given direction, each with the node it leads to: an edge is
  followed from \<open>from_id\<close> to \<open>to_id\<close> when outgoing, from \<open>to_id\<close> to \<open>from_id\<close> when
  incoming, and both ways for \<open>Both\<close>.
\<close>

definition neighbours :: "edge list \<Rightarrow> direction \<Rightarrow> string \<Rightarrow> (edge \<times> string) list" where
  "neighbours es dir a =
     concat (map (\<lambda>e.
       (if (dir = Outgoing \<or> dir = Both) \<and> e_from_id e = a then [(e, e_to_id e)] else []) @
       (if (dir = Incoming \<or> dir = Both) \<and> e_to_id e = a then [(e, e_from_id e)] else [])) es)"

text \<open>
  Modelled from the spec: the visited-set guard, "visiting each node at most once
  (first-seen depth wins -- no revisits at a farther depth)". Of the candidate edges
  of one level, the ones that lead to a node not seen so far are kept, and a node
  that is kept counts as seen for the candidates after it.
\<close>

fun discover :: "(edge \<times> string) list \<Rightarrow> string list \<Rightarrow> (edge \<times> string) list" where
  "discover [] seen = []"
| "discover ((e, n) # cs) seen =
     (if n \<in> set seen then discover cs seen else (e, n) # discover cs (n # seen))"

text \<open>
  Modelled from the spec: "breadth-first expansion from the start set ... bounded by
  max_depth". One round per level: \<open>r\<close> rounds are left, \<open>k\<close> is the depth of the
  frontier, \<open>visited\<close> holds each visited node with the depth of its first visit, and
  \<open>used\<close> the edges traversed to reach the nodes. The recursion is on the rounds that
  are left, so the walk ends after at most \<open>max_depth\<close> rounds on every graph.
\<close>

fun walk ::
  "edge list \<Rightarrow> direction \<Rightarrow> nat \<Rightarrow> nat \<Rightarrow> string list \<Rightarrow> (string \<times> nat) list \<Rightarrow> edge list \<Rightarrow>
   (string \<times> nat) list \<times> edge list" where
  "walk es dir 0 k frontier visited used = (visited, used)"
| "walk es dir (Suc r) k frontier visited used =
     (let found = discover (concat (map (neighbours es dir) frontier)) (map fst visited)
      in walk es dir r (Suc k) (map snd found)
           (visited @ map (\<lambda>(e, n). (n, Suc k)) found) (used @ map fst found))"

text \<open>
  Modelled from the spec: \<^verbatim>\<open>Traverse(start_ids, max_depth, direction) -> (nodes, edges)\<close>,
  "depth 0 = start nodes only", "returns the visited node set and the edges that were
  traversed to reach them". The start nodes are visited at depth 0, each once.
\<close>

definition Traverse ::
  "edge list \<Rightarrow> string list \<Rightarrow> nat \<Rightarrow> direction \<Rightarrow> (string \<times> nat) list \<times> edge list" where
  "Traverse es start_ids max_depth dir =
     (let starts = remdups start_ids
      in walk es dir max_depth 0 starts (map (\<lambda>s. (s, 0)) starts) [])"

section \<open>Vocabulary of the properties\<close>

text \<open>
  The invariant of \<^verbatim>\<open>self._nodes\<close>: a dict has no key twice, and every value that
  \<^verbatim>\<open>store\<close> writes carries its own key in its \<^verbatim>\<open>"id"\<close> entry.
\<close>

definition nodes_ok :: "(string \<times> node_data) list \<Rightarrow> bool" where
  "nodes_ok d = (distinct (dict_keys d) \<and> list_all (\<lambda>(k, n). n_id n = k) d)"

text \<open>
  Insertion order: the position of a key in the dict, and the ranking order that
  compares two results by descending score first and by earlier insertion of their
  nodes among equal scores.
\<close>

fun key_index :: "'k list \<Rightarrow> 'k \<Rightarrow> nat" where
  "key_index [] k = 0"
| "key_index (x # xs) k = (if x = k then 0 else Suc (key_index xs k))"

definition inserted_before :: "mock_cortex \<Rightarrow> string \<Rightarrow> string \<Rightarrow> bool" where
  "inserted_before self a b =
     (key_index (dict_keys (nodes self)) a < key_index (dict_keys (nodes self)) b)"

definition ranked_before :: "mock_cortex \<Rightarrow> search_result \<Rightarrow> search_result \<Rightarrow> bool" where
  "ranked_before self a b =
     (sr_score b < sr_score a \<or>
      (sr_score a = sr_score b \<and> inserted_before self (sr_node_id a) (sr_node_id b)))"

text \<open>
  Distances in a graph, for the traversal bound. \<open>follows es dir a b\<close> is one step
  from \<open>a\<close> to \<open>b\<close> along an edge of \<open>es\<close> in the direction \<open>dir\<close>, and
  \<open>reach es dir starts d n\<close> says that \<open>n\<close> is at most \<open>d\<close> steps away from a node of
  \<open>starts\<close>. The shortest distance of \<open>n\<close> from the start set is the least such \<open>d\<close>.
\<close>

definition follows :: "edge list \<Rightarrow> direction \<Rightarrow> string \<Rightarrow> string \<Rightarrow> bool" where
  "follows es dir a b =
     list_ex (\<lambda>e.
        ((dir = Outgoing \<or> dir = Both) \<and> e_from_id e = a \<and> e_to_id e = b) \<or>
        ((dir = Incoming \<or> dir = Both) \<and> e_to_id e = a \<and> e_from_id e = b)) es"

inductive reach :: "edge list \<Rightarrow> direction \<Rightarrow> string list \<Rightarrow> nat \<Rightarrow> string \<Rightarrow> bool"
  for es :: "edge list" and dir :: direction and starts :: "string list" where
  reach_start: "s \<in> set starts \<Longrightarrow> reach es dir starts d s"
| reach_step: "reach es dir starts d m \<Longrightarrow> follows es dir m n \<Longrightarrow> reach es dir starts (Suc d) n"

text \<open>
  The invariant of the walk when the frontier is at depth \<open>k\<close>: no node is visited
  twice; the depth noted for a visited node is its shortest distance from the start
  set and at most \<open>k\<close>; every node within \<open>k\<close> steps is visited; and every step from
  a visited node that is not in the frontier leads to a visited node.
\<close>

definition walk_inv ::
  "edge list \<Rightarrow> direction \<Rightarrow> string list \<Rightarrow> nat \<Rightarrow> string list \<Rightarrow> (string \<times> nat) list \<Rightarrow> bool" where
  "walk_inv es dir starts k frontier visited =
     (distinct (map fst visited) \<and>
      (\<forall>(n, j) \<in> set visited. j \<le> k \<and> reach es dir starts j n \<and>
           (\<forall>i<j. \<not> reach es dir starts i n)) \<and>
      (\<forall>n. reach es dir starts k n \<longrightarrow> n \<in> fst ` set visited) \<and>
      (\<forall>m \<in> fst ` set visited. m \<notin> set frontier \<longrightarrow>
           (\<forall>n. follows es dir m n \<longrightarrow> n \<in> fst ` set visited)) \<and>
      set frontier \<subseteq> fst ` set visited)"

section \<open>Example objects\<close>

text \<open>Ten calls \<^verbatim>\<open>store("fact", "a")\<close> on a new object, with ten different ids.\<close>

definition ten_stored :: mock_cortex where
  "ten_stored =
     store_calls MockCortex
       (map (default_call ''fact'' ''a'')
          [''u0'', ''u1'', ''u2'', ''u3'', ''u4'', ''u5'', ''u6'', ''u7'', ''u8'', ''u9''])"

text \<open>The two calls of the test \<^verbatim>\<open>test_returns_matching_results\<close>.\<close>

definition two_stored :: mock_cortex where
  "two_stored =
     store_calls MockCortex
       [default_call ''fact'' ''Rate limit is 1000/min'' ''u0'',
        default_call ''event'' ''Deploy complete'' ''u1'']"

text \<open>A cyclic graph: three edges \<open>u0 -> u1 -> u2 -> u0\<close>.\<close>

definition cycle_edges :: "edge list" where
  "cycle_edges =
     [\<lparr>e_id = ''e0'', e_from_id = ''u0'', e_to_id = ''u1'', e_relation = ''next'', e_weight = 1\<rparr>,
      \<lparr>e_id = ''e1'', e_from_id = ''u1'', e_to_id = ''u2'', e_relation = ''next'', e_weight = 1\<rparr>,
      \<lparr>e_id = ''e2'', e_from_id = ''u2'', e_to_id = ''u0'', e_relation = ''next'', e_weight = 1\<rparr>]"

text \<open>The call of the test \<^verbatim>\<open>test_returns_empty_list_when_no_match\<close>.\<close>

definition one_stored :: mock_cortex where
  "one_stored = store_calls MockCortex [default_call ''fact'' ''Something unrelated'' ''u0'']"

section \<open>Auxiliary facts\<close>

subsection \<open>Strings, slices and dicts\<close>

lemma startswith_prefix: "startswith t q = prefix q t"
  by (induction t q rule: startswith.induct) auto

lemma str_in_sublist: "str_in q t = sublist q t"
  by (induction t) (auto simp: startswith_prefix sublist_Cons_right)

lemma str_in_refl: "str_in q q"
  by (simp add: str_in_sublist)

lemma dict_get_set: "dict_get (dict_set d k v) k' = (if k' = k then Some v else dict_get d k')"
  by (induction d) auto

lemma keys_dict_set:
  "dict_keys (dict_set d k v) =
     (if k \<in> set (dict_keys d) then dict_keys d else dict_keys d @ [k])"
  by (induction d) (fastforce simp: dict_keys_def)+

lemma fst_set_dict_set: "fst ` set (dict_set d k v) = insert k (fst ` set d)"
  using keys_dict_set[of d k v, THEN arg_cong, of set] by (auto simp: dict_keys_def)

lemma dict_keys_set: "set (dict_keys (dict_set d k v)) = insert k (set (dict_keys d))"
  by (simp add: dict_keys_def fst_set_dict_set)

lemma dict_get_None_iff: "dict_get d k = None \<longleftrightarrow> k \<notin> set (dict_keys d)"
  by (induction d) (auto simp: dict_keys_def split: if_splits)

lemma dict_set_fresh: "k \<notin> set (dict_keys d) \<Longrightarrow> dict_set d k v = d @ [(k, v)]"
  by (induction d) (auto simp: dict_keys_def)

lemma dict_set_present: "k \<in> set (dict_keys d) \<Longrightarrow> length (dict_set d k v) = length d"
  by (induction d) (force simp: dict_keys_def)+

lemma dict_set_mem: "(k, v) \<in> set (dict_set d k v)"
  by (induction d) auto

lemma dict_values_set_mem: "v \<in> set (dict_values (dict_set d k v))"
  using dict_set_mem[of k v d] by (force simp: dict_values_def)

lemma filter_values_set_le:
  "length (filter P (dict_values (dict_set d k v))) \<le> Suc (length (filter P (dict_values d)))"
  by (induction d) (auto simp: dict_values_def)

lemma distinct_dict_set: "distinct (dict_keys d) \<Longrightarrow> distinct (dict_keys (dict_set d k v))"
  by (induction d) (auto simp: dict_keys_def fst_set_dict_set)

lemma list_all_dict_set: "list_all P d \<Longrightarrow> P (k, v) \<Longrightarrow> list_all P (dict_set d k v)"
  by (induction d) auto

lemma nodes_ok_set: "nodes_ok d \<Longrightarrow> n_id n = k \<Longrightarrow> nodes_ok (dict_set d k n)"
  by (simp add: nodes_ok_def distinct_dict_set list_all_dict_set)

lemma nodes_ok_store_call: "nodes_ok (nodes self) \<Longrightarrow> nodes_ok (nodes (store_call self c))"
  by (simp add: store_call_def store_def Let_def nodes_ok_set)

lemma nodes_ok_store_calls: "nodes_ok (nodes self) \<Longrightarrow> nodes_ok (nodes (store_calls self cs))"
  by (induction cs arbitrary: self) (auto simp: nodes_ok_store_call)

lemma nodes_ok_init: "nodes_ok (nodes MockCortex)"
  by (simp add: MockCortex_def nodes_ok_def dict_keys_def)

lemma keys_store_call:
  "set (dict_keys (nodes (store_call self c))) = insert (c_uuid4 c) (set (dict_keys (nodes self)))"
  by (simp add: store_call_def store_def Let_def dict_keys_set)

lemma keys_store_calls:
  "set (dict_keys (nodes (store_calls self cs))) = set (dict_keys (nodes self)) \<union> set (map c_uuid4 cs)"
  by (induction cs arbitrary: self) (auto simp: keys_store_call)

lemma key_index_sorted: "distinct ks \<Longrightarrow> sorted_wrt (\<lambda>a b. key_index ks a < key_index ks b) ks"
proof (induction ks)
  case Nil
  then show ?case by simp
next
  case (Cons x xs)
  then have "sorted_wrt (\<lambda>a b. key_index xs a < key_index xs b) xs" by simp
  then have "sorted_wrt (\<lambda>a b. key_index (x # xs) a < key_index (x # xs) b) xs"
    using Cons.prems by (auto elim!: sorted_wrt_mono_rel[rotated])
  moreover have "\<forall>y\<in>set xs. key_index (x # xs) x < key_index (x # xs) y"
    using Cons.prems by auto
  ultimately show ?case by simp
qed

lemma slice_to_all: "int (length xs) \<le> limit \<Longrightarrow> slice_to xs limit = xs"
  by (simp add: slice_to_def)

lemma slice_to_take: "\<exists>m. slice_to xs limit = take m xs"
  by (auto simp: slice_to_def)

lemma node_matches_own_title: "n_title n = title \<Longrightarrow> node_matches lw (lw title) n"
  by (simp add: node_matches_def str_in_refl)

subsection \<open>Reading a node back\<close>

lemma get_node_store:
  "get_node (snd (store self kind title body tags importance metadata source_agent uuid4)) k =
     (if k = uuid4
      then Some \<lparr>n_id = uuid4, n_kind = kind, n_title = title, n_body = or_str body title,
                 n_tags = or_empty tags, n_importance = importance,
                 n_metadata = or_empty metadata, n_source_agent = source_agent\<rparr>
      else get_node self k)"
  by (simp add: store_def Let_def get_node_def dict_get_set MockNode_def)

lemma get_node_None_iff: "get_node self k = None \<longleftrightarrow> k \<notin> set (dict_keys (nodes self))"
  by (simp add: get_node_def dict_get_None_iff[symmetric] split: option.splits)

subsection \<open>Insertion order of the results\<close>

lemma values_ranked:
  assumes "nodes_ok d"
  shows "sorted_wrt (\<lambda>a b. key_index (dict_keys d) (n_id a) < key_index (dict_keys d) (n_id b))
           (dict_values d)"
proof -
  from assms have dist: "distinct (map fst d)" and ids: "\<forall>p\<in>set d. n_id (snd p) = fst p"
    by (auto simp: nodes_ok_def dict_keys_def list_all_iff)
  from dist have "sorted_wrt (\<lambda>p q. key_index (map fst d) (fst p) < key_index (map fst d) (fst q)) d"
    using key_index_sorted[of "map fst d"] by (simp add: sorted_wrt_map)
  then have "sorted_wrt (\<lambda>p q. key_index (map fst d) (n_id (snd p)) <
                               key_index (map fst d) (n_id (snd q))) d"
  proof (rule sorted_wrt_mono_rel[rotated])
    fix p q
    assume "p \<in> set d" "q \<in> set d"
      and "key_index (map fst d) (fst p) < key_index (map fst d) (fst q)"
    with ids show "key_index (map fst d) (n_id (snd p)) < key_index (map fst d) (n_id (snd q))"
      by simp
  qed
  then show ?thesis
    by (simp add: dict_values_def dict_keys_def sorted_wrt_map)
qed

lemma search_ranked:
  assumes "nodes_ok (nodes self)"
  shows "sorted_wrt (ranked_before self) (search lw self query limit)"
proof -
  let ?f = "\<lambda>n. MockSearchResult (9 / 10) (MockNode n)"
  have "sorted_wrt (\<lambda>a b. ranked_before self (?f a) (?f b)) (dict_values (nodes self))"
    using values_ranked[OF assms]
    by (simp add: ranked_before_def inserted_before_def MockSearchResult_def MockNode_def)
  then have "sorted_wrt (\<lambda>a b. ranked_before self (?f a) (?f b))
               (filter (node_matches lw (lw query)) (dict_values (nodes self)))"
    by (rule sorted_wrt_filter)
  then have "sorted_wrt (ranked_before self)
               (map ?f (filter (node_matches lw (lw query)) (dict_values (nodes self))))"
    by (simp add: sorted_wrt_map)
  moreover obtain m where "search lw self query limit =
      take m (map ?f (filter (node_matches lw (lw query)) (dict_values (nodes self))))"
    using slice_to_take by (auto simp: search_def Let_def)
  ultimately show ?thesis by simp
qed

subsection \<open>The breadth-first walk\<close>

lemma follows_neighbours: "follows es dir a b \<longleftrightarrow> b \<in> snd ` set (neighbours es dir a)"
  by (induction es) (auto simp: follows_def neighbours_def)

lemma discover_nodes: "snd ` set (discover cs seen) = snd ` set cs - set seen"
  by (induction cs seen rule: discover.induct) auto

lemma discover_distinct: "distinct (map snd (discover cs seen))"
proof (induction cs seen rule: discover.induct)
  case (1 seen)
  then show ?case by simp
next
  case (2 e n cs seen)
  have "n \<notin> snd ` set (discover cs (n # seen))"
    by (simp add: discover_nodes)
  with 2 show ?case by simp
qed

lemma reach_Suc_mono: "reach es dir starts d n \<Longrightarrow> reach es dir starts (Suc d) n"
  by (induction rule: reach.induct) (auto intro: reach.intros)

lemma reach_mono: "reach es dir starts d n \<Longrightarrow> d \<le> d' \<Longrightarrow> reach es dir starts d' n"
  by (induction d' ) (auto simp: le_Suc_eq intro: reach_Suc_mono)

lemma reach_0: "reach es dir starts 0 n \<longleftrightarrow> n \<in> set starts"
  by (auto elim: reach.cases intro: reach.intros)

lemma reach_Suc:
  "reach es dir starts (Suc d) n \<longleftrightarrow>
     n \<in> set starts \<or> (\<exists>m. reach es dir starts d m \<and> follows es dir m n)"
  by (auto elim: reach.cases intro: reach.intros)

lemma walk_inv_start:
  "walk_inv es dir starts 0 (remdups starts) (map (\<lambda>s. (s, 0)) (remdups starts))"
  by (auto simp: walk_inv_def reach_0 comp_def image_iff)

lemma walk_inv_step:
  assumes inv: "walk_inv es dir starts k frontier visited"
  defines "found \<equiv> discover (concat (map (neighbours es dir) frontier)) (map fst visited)"
  shows "walk_inv es dir starts (Suc k) (map snd found)
           (visited @ map (\<lambda>(e, n). (n, Suc k)) found)"
proof -
  let ?V = "fst ` set visited"
  let ?N = "snd ` set found"
  let ?visited' = "visited @ map (\<lambda>(e, n). (n, Suc k)) found"
  from inv have dist: "distinct (map fst visited)"
    and depth: "\<And>n j. (n, j) \<in> set visited \<Longrightarrow>
          j \<le> k \<and> reach es dir starts j n \<and> (\<forall>i<j. \<not> reach es dir starts i n)"
    and complete: "\<And>n. reach es dir starts k n \<Longrightarrow> n \<in> ?V"
    and closed: "\<And>m n. m \<in> ?V \<Longrightarrow> m \<notin> set frontier \<Longrightarrow> follows es dir m n \<Longrightarrow> n \<in> ?V"
    and front: "set frontier \<subseteq> ?V"
    by (auto simp: walk_inv_def)
  have new: "?N = (\<Union>m \<in> set frontier. snd ` set (neighbours es dir m)) - ?V"
    by (auto simp: found_def discover_nodes)
  have fst_new: "fst ` set (map (\<lambda>(e, n). (n, Suc k)) found) = ?N"
    by (force simp: image_iff)
  have V': "fst ` set ?visited' = ?V \<union> ?N"
    using fst_new by (simp add: image_Un)
  have reach_V: "reach es dir starts k m" if "m \<in> ?V" for m
  proof -
    from that obtain j where "(m, j) \<in> set visited" by auto
    with depth have "j \<le> k" "reach es dir starts j m" by auto
    then show ?thesis by (rule reach_mono[rotated])
  qed
  have next_seen: "n \<in> ?V \<union> ?N" if "m \<in> ?V" "follows es dir m n" for m n
  proof (cases "m \<in> set frontier")
    case True
    with that(2) have "n \<in> (\<Union>m \<in> set frontier. snd ` set (neighbours es dir m))"
      by (auto simp: follows_neighbours)
    then show ?thesis by (auto simp: new)
  next
    case False
    with that closed show ?thesis by blast
  qed
  have "distinct (map fst ?visited')"
  proof -
    have "fst \<circ> (\<lambda>(e, n). (n, Suc k)) = (snd :: edge \<times> string \<Rightarrow> string)"
      by (auto simp: fun_eq_iff)
    then have m: "map fst ?visited' = map fst visited @ map snd found"
      by simp
    have d: "distinct (map snd found)"
      unfolding found_def by (rule discover_distinct)
    have "?V \<inter> ?N = {}"
      by (auto simp: new)
    with dist d show ?thesis
      unfolding m by simp
  qed
  moreover have "\<forall>(n, j) \<in> set ?visited'. j \<le> Suc k \<and> reach es dir starts j n \<and>
                   (\<forall>i<j. \<not> reach es dir starts i n)"
  proof -
    have old: "j \<le> Suc k \<and> reach es dir starts j n \<and> (\<forall>i<j. \<not> reach es dir starts i n)"
      if "(n, j) \<in> set visited" for n j
      using depth[OF that] by simp
    have fresh: "reach es dir starts (Suc k) n \<and> (\<forall>i<Suc k. \<not> reach es dir starts i n)"
      if "n \<in> ?N" for n
    proof -
      from that obtain m where m: "m \<in> set frontier" "n \<in> snd ` set (neighbours es dir m)"
        and n: "n \<notin> ?V"
        by (auto simp: new)
      from m(1) front have "reach es dir starts k m" by (auto intro: reach_V)
      moreover from m(2) have "follows es dir m n" by (simp add: follows_neighbours)
      ultimately have "reach es dir starts (Suc k) n" by (rule reach_step)
      moreover have "\<not> reach es dir starts i n" if "i < Suc k" for i
      proof
        assume "reach es dir starts i n"
        with that have "reach es dir starts k n" by (auto intro: reach_mono)
        with complete n show False by blast
      qed
      ultimately show ?thesis by blast
    qed
    show ?thesis
      using old fresh by (auto simp: image_iff) force+
  qed
  moreover have "\<forall>n. reach es dir starts (Suc k) n \<longrightarrow> n \<in> fst ` set ?visited'"
  proof (intro allI impI)
    fix n assume "reach es dir starts (Suc k) n"
    then consider "n \<in> set starts" | m where "reach es dir starts k m" "follows es dir m n"
      by (auto simp: reach_Suc)
    then show "n \<in> fst ` set ?visited'"
    proof cases
      case 1
      then have "reach es dir starts k n" by (rule reach_start)
      with complete V' show ?thesis by blast
    next
      case 2
      with complete have "m \<in> ?V" by blast
      with 2(2) next_seen V' show ?thesis by blast
    qed
  qed
  moreover have "\<forall>m \<in> fst ` set ?visited'. m \<notin> set (map snd found) \<longrightarrow>
                   (\<forall>n. follows es dir m n \<longrightarrow> n \<in> fst ` set ?visited')"
    unfolding V' using next_seen by auto
  moreover have "set (map snd found) \<subseteq> fst ` set ?visited'"
    unfolding V' by auto
  ultimately show ?thesis
    unfolding walk_inv_def by blast
qed

lemma walk_inv_walk:
  "walk_inv es dir starts k frontier visited \<Longrightarrow>
   \<exists>f. walk_inv es dir starts (k + r) f (fst (walk es dir r k frontier visited used))"
proof (induction r arbitrary: k frontier visited used)
  case 0
  then show ?case by auto
next
  case (Suc r)
  let ?found = "discover (concat (map (neighbours es dir) frontier)) (map fst visited)"
  from Suc.prems have "walk_inv es dir starts (Suc k) (map snd ?found)
      (visited @ map (\<lambda>(e, n). (n, Suc k)) ?found)"
    by (rule walk_inv_step)
  from Suc.IH[OF this, of "used @ map fst ?found"] show ?case
    by (simp add: Let_def)
qed

text \<open>The equations that evaluate the methods on the example objects.\<close>

lemmas run_defs = store_call_def store_def default_call_def MockCortex_def
  Let_def or_str_def or_empty_def search_def dict_values_def dict_keys_def node_matches_def
  ascii_lower_def char_lower_def char_of_def bit_0 MockSearchResult_def MockNode_def slice_to_def
  get_node_def

section \<open>Properties\<close>

text \<open>
  C1 (read-your-writes), as the code has it. \<^verbatim>\<open>search\<close> cuts the matches to the first
  \<open>limit\<close> in insertion order, and the node just stored is the last one. So, whatever
  \<^verbatim>\<open>str.lower\<close> computes (\<open>lw\<close>): for every node created by \<^verbatim>\<open>store\<close>, a \<^verbatim>\<open>search\<close> that
  follows at once with the node's exact title as query returns that node among its
  results, with score \<open>0.9 > 0\<close>, provided fewer than \<open>limit\<close> of the nodes stored
  before the call contain the lower-cased title in their lower-cased title or body.
\<close>

theorem search_finds_stored_title:
  assumes "int (length (filter (node_matches lw (lw title)) (dict_values (nodes self)))) < limit"
  shows "\<exists>r \<in> set (search lw (snd (store self kind title body tags importance metadata
                                       source_agent uuid4)) title limit).
           sr_node_id r = fst (store self kind title body tags importance metadata
                                 source_agent uuid4) \<and>
           sr_title r = title \<and> sr_score r = 9 / 10 \<and> 0 < sr_score r"
proof -
  define data where
    "data = \<lparr>n_id = uuid4, n_kind = kind, n_title = title, n_body = or_str body title,
             n_tags = or_empty tags, n_importance = importance,
             n_metadata = or_empty metadata, n_source_agent = source_agent\<rparr>"
  define d' where "d' = dict_set (nodes self) uuid4 data"
  let ?P = "node_matches lw (lw title)"
  let ?f = "\<lambda>n. MockSearchResult (9 / 10) (MockNode n)"
  have st: "store self kind title body tags importance metadata source_agent uuid4 =
              (uuid4, self\<lparr>nodes := d', call_log := call_log self @ [(''store'', kind, title)]\<rparr>)"
    by (simp add: store_def Let_def data_def d'_def)
  have "length (filter ?P (dict_values d')) \<le> Suc (length (filter ?P (dict_values (nodes self))))"
    unfolding d'_def by (rule filter_values_set_le)
  with assms have "int (length (map ?f (filter ?P (dict_values d')))) \<le> limit"
    by simp
  then have res: "search lw (snd (store self kind title body tags importance metadata
                      source_agent uuid4)) title limit = map ?f (filter ?P (dict_values d'))"
    unfolding st search_def Let_def by (simp add: slice_to_all)
  have "data \<in> set (dict_values d')"
    unfolding d'_def by (rule dict_values_set_mem)
  moreover have "?P data"
    by (rule node_matches_own_title) (simp add: data_def)
  ultimately have "?f data \<in> set (map ?f (filter ?P (dict_values d')))"
    by simp
  moreover have "sr_node_id (?f data) = uuid4 \<and> sr_title (?f data) = title \<and>
                 sr_score (?f data) = 9 / 10 \<and> 0 < sr_score (?f data)"
    by (simp add: MockSearchResult_def MockNode_def data_def)
  moreover have "fst (store self kind title body tags importance metadata source_agent uuid4) = uuid4"
    by (simp add: st)
  ultimately show ?thesis
    unfolding res by (intro bexI[of _ "?f data"]) simp_all
qed

theorem search_finds_stored_title_witness:
  "int (length (filter (node_matches ascii_lower (ascii_lower ''Deploy'')) (dict_values (nodes two_stored)))) < 10 \<and>
   (\<exists>r \<in> set (search ascii_lower (snd (store two_stored ''note'' ''Deploy'' '''' None (1 / 2) None ''''
                                ''u2'')) ''Deploy'' 10).
      sr_node_id r = ''u2'' \<and> sr_title r = ''Deploy'' \<and> sr_score r = 9 / 10 \<and> 0 < sr_score r)"
proof -
  have h: "int (length (filter (node_matches ascii_lower (ascii_lower ''Deploy''))
                  (dict_values (nodes two_stored)))) < 10"
    by (simp add: two_stored_def run_defs)
  have "fst (store two_stored ''note'' ''Deploy'' '''' None (1 / 2) None '''' ''u2'') = ''u2''"
    by (simp add: store_def Let_def)
  with h search_finds_stored_title [OF h, of "''note''" "''''" None "1 / 2" None "''''" "''u2''"]
  show ?thesis by simp
qed

text \<open>
  Without the proviso the property fails at the default \<^verbatim>\<open>limit=10\<close>: after ten calls
  \<^verbatim>\<open>store("fact", "a")\<close>, an eleventh such call returns \<open>u10\<close> and
  \<^verbatim>\<open>get_node\<close> finds the node, but \<^verbatim>\<open>search("a")\<close> returns the ten older nodes only.
\<close>

theorem search_default_limit_counterexample:
  "fst (store ten_stored ''fact'' ''a'' '''' None (1 / 2) None '''' ''u10'') = ''u10'' \<and>
   get_node (snd (store ten_stored ''fact'' ''a'' '''' None (1 / 2) None '''' ''u10'')) ''u10'' \<noteq> None \<and>
   map sr_node_id
     (search ascii_lower (snd (store ten_stored ''fact'' ''a'' '''' None (1 / 2) None '''' ''u10'')) ''a'' 10) =
     [''u0'', ''u1'', ''u2'', ''u3'', ''u4'', ''u5'', ''u6'', ''u7'', ''u8'', ''u9'']"
  by (simp add: ten_stored_def run_defs)

text \<open>
  C2, as the code has it. \<^verbatim>\<open>MockCortex.store\<close> checks none of its arguments: a call
  in which \<^verbatim>\<open>kind\<close> or \<^verbatim>\<open>title\<close> is the empty string is accepted like any other. It
  returns the id it drew, writes the node under that id with the kind and title as
  given, and appends the call to the call log.
\<close>

theorem store_accepts_empty_fields:
  assumes "kind = '''' \<or> title = ''''"
  shows "fst (store self kind title body tags importance metadata source_agent uuid4) = uuid4 \<and>
         get_node (snd (store self kind title body tags importance metadata source_agent uuid4))
           uuid4 =
           Some \<lparr>n_id = uuid4, n_kind = kind, n_title = title, n_body = or_str body title,
                 n_tags = or_empty tags, n_importance = importance,
                 n_metadata = or_empty metadata, n_source_agent = source_agent\<rparr> \<and>
         call_log (snd (store self kind title body tags importance metadata source_agent uuid4)) =
           call_log self @ [(''store'', kind, title)]"
  by (simp add: store_def Let_def get_node_def dict_get_set MockNode_def)

theorem store_accepts_empty_fields_witness:
  "get_node (snd (store two_stored ''fact'' '''' '''' None (1 / 2) None ''kai'' ''u2'')) ''u2'' =
     Some \<lparr>n_id = ''u2'', n_kind = ''fact'', n_title = '''', n_body = '''', n_tags = [],
           n_importance = 1 / 2, n_metadata = [], n_source_agent = ''kai''\<rparr>"
  using store_accepts_empty_fields [of "''fact''" "''''" two_stored "''''" None "1 / 2" None
      "''kai''" "''u2''"]
  by (simp add: or_str_def or_empty_def)

text \<open>
  The rejection that the specification asks for does not happen: on a new object,
  \<^verbatim>\<open>store("", "")\<close> returns an id, and the node with empty kind, title and body is
  stored under it.
\<close>

theorem store_empty_fields_counterexample:
  "fst (store MockCortex '''' '''' '''' None (1 / 2) None '''' ''u0'') = ''u0'' \<and>
   get_node MockCortex ''u0'' = None \<and>
   get_node (snd (store MockCortex '''' '''' '''' None (1 / 2) None '''' ''u0'')) ''u0'' =
     Some \<lparr>n_id = ''u0'', n_kind = '''', n_title = '''', n_body = '''', n_tags = [],
           n_importance = 1 / 2, n_metadata = [], n_source_agent = ''''\<rparr>"
  by (simp add: run_defs)

text \<open>
  C3, as the code has it. \<^verbatim>\<open>briefing_full\<close> keeps no cache. For every agent id and
  compact flag the rendered text is the same placeholder, whatever the object holds,
  so two consecutive calls return identical text; every call reports
  \<^verbatim>\<open>cached=False\<close>, the second of two consecutive calls as well as the call after a
  \<^verbatim>\<open>store\<close> whose \<^verbatim>\<open>source_agent\<close> is that agent id.
\<close>

theorem briefing_full_never_cached:
  "b_text (briefing_full self agent_id compact_flag) = ''[Mock briefing for '' @ agent_id @ '']'' \<and>
   b_cached (briefing_full self agent_id compact_flag) = False \<and>
   b_cached (briefing_full
      (snd (store self kind title body tags importance metadata agent_id uuid4))
      agent_id compact_flag) = False"
  by (simp add: briefing_full_def)

text \<open>
  \<^verbatim>\<open>briefing_full\<close> does not assign to \<^verbatim>\<open>self\<close>, so the second of two consecutive calls
  runs on the same object as the first; on a new object it reports \<^verbatim>\<open>cached=False\<close>,
  not \<^verbatim>\<open>True\<close>.
\<close>

theorem briefing_full_cached_counterexample:
  "b_text (briefing_full MockCortex ''kai'' False) = ''[Mock briefing for kai]'' \<and>
   b_cached (briefing_full MockCortex ''kai'' False) = False"
  by (simp add: briefing_full_def)

text \<open>
  C4. \<^verbatim>\<open>get_node\<close> on an id that no \<^verbatim>\<open>store\<close> call of the object has returned is
  \<^verbatim>\<open>None\<close>; \<^verbatim>\<open>get_node\<close> on the id a \<^verbatim>\<open>store\<close> call has just returned is a node whose
  fields are the arguments of that call, with \<^verbatim>\<open>body\<close> replaced by the title when it
  is omitted or empty (and the omitted \<^verbatim>\<open>tags\<close> and \<^verbatim>\<open>metadata\<close> by the empty list and
  the empty dict).
\<close>

theorem get_node_unissued_and_created:
  "(k \<notin> set (map c_uuid4 cs) \<longrightarrow> get_node (store_calls MockCortex cs) k = None) \<and>
   get_node (snd (store self kind title body tags importance metadata source_agent uuid4))
     (fst (store self kind title body tags importance metadata source_agent uuid4)) =
     Some \<lparr>n_id = uuid4, n_kind = kind, n_title = title,
           n_body = (if body = '''' then title else body),
           n_tags = (case tags of None \<Rightarrow> [] | Some ts \<Rightarrow> ts),
           n_importance = importance,
           n_metadata = (case metadata of None \<Rightarrow> [] | Some m \<Rightarrow> m),
           n_source_agent = source_agent\<rparr>"
proof -
  have "get_node (store_calls MockCortex cs) k = None" if "k \<notin> set (map c_uuid4 cs)"
    using that by (simp add: get_node_None_iff keys_store_calls) (simp add: MockCortex_def dict_keys_def)
  moreover have "fst (store self kind title body tags importance metadata source_agent uuid4) = uuid4"
    by (simp add: store_def Let_def)
  ultimately show ?thesis
    by (simp add: get_node_store or_str_def or_empty_def split: option.splits)
qed

theorem get_node_unissued_and_created_witness:
  "get_node two_stored ''nonexistent-node-id-99999'' = None \<and>
   get_node (snd (store two_stored ''fact'' ''Findable node'' '''' None (7 / 10) None '''' ''u2''))
     ''u2'' =
     Some \<lparr>n_id = ''u2'', n_kind = ''fact'', n_title = ''Findable node'',
           n_body = ''Findable node'', n_tags = [], n_importance = 7 / 10, n_metadata = [],
           n_source_agent = ''''\<rparr>"
  using get_node_unissued_and_created [of "''nonexistent-node-id-99999''"
      "[default_call ''fact'' ''Rate limit is 1000/min'' ''u0'',
        default_call ''event'' ''Deploy complete'' ''u1'']"
      two_stored "''fact''" "''Findable node''" "''''" None "7 / 10" None "''''" "''u2''"]
  by (simp add: two_stored_def default_call_def store_def Let_def)

text \<open>
  C5. For every query and limit (and whatever \<^verbatim>\<open>str.lower\<close> computes), \<^verbatim>\<open>search_hybrid\<close>
  with no anchors (\<^verbatim>\<open>anchor_ids\<close> omitted, or the empty list) returns the list that
  \<^verbatim>\<open>search\<close> returns for the same query and limit.
\<close>

theorem search_hybrid_no_anchors:
  "search_hybrid lw self query None limit = search lw self query limit \<and>
   search_hybrid lw self query (Some []) limit = search lw self query limit"
  by (simp add: search_hybrid_def)

text \<open>
  C6. For every object state (every state that \<^verbatim>\<open>store\<close> calls produce from a new
  object), every query and every limit, and whatever \<^verbatim>\<open>str.lower\<close> computes, the list
  that \<^verbatim>\<open>search\<close> returns is ordered by descending score, and two results of equal
  score stand in the order in which their nodes were inserted. (Every score is
  \<open>0.9\<close>, so the order is the insertion order.)
\<close>

theorem search_descending_stable:
  "sorted_wrt (ranked_before (store_calls MockCortex cs))
     (search lw (store_calls MockCortex cs) query limit)"
  by (rule search_ranked) (rule nodes_ok_store_calls, rule nodes_ok_init)

theorem search_descending_stable_witness:
  "sorted_wrt (ranked_before two_stored) (search ascii_lower two_stored ''E'' 10) \<and>
   map sr_node_id (search ascii_lower two_stored ''E'' 10) = [''u0'', ''u1''] \<and>
   map sr_score (search ascii_lower two_stored ''E'' 10) = [9 / 10, 9 / 10] \<and>
   inserted_before two_stored ''u0'' ''u1''"
  using search_descending_stable
    [of "[default_call ''fact'' ''Rate limit is 1000/min'' ''u0'',
          default_call ''event'' ''Deploy complete'' ''u1'']" ascii_lower "''E''" 10]
  by (simp add: two_stored_def inserted_before_def run_defs)

text \<open>
  C7. For every graph \<open>es\<close> (cyclic or not), start set, direction and \<open>max_depth = d\<close>,
  \<open>Traverse\<close> returns (it is total, by recursion on the rounds that are left), and
  its result holds no node twice. The depth noted for a returned node is at most \<open>d\<close>
  and is the node's shortest distance from the start set (first-seen depth wins), so
  no node farther than \<open>d\<close> is returned; and every node within \<open>d\<close> steps of the
  start set is returned.
\<close>

theorem Traverse_visits_once_within_depth:
  "distinct (map fst (fst (Traverse es start_ids d dir))) \<and>
   (\<forall>(n, k) \<in> set (fst (Traverse es start_ids d dir)).
      k \<le> d \<and> reach es dir start_ids k n \<and> (\<forall>j<k. \<not> reach es dir start_ids j n)) \<and>
   (\<forall>n. reach es dir start_ids d n \<longrightarrow> n \<in> fst ` set (fst (Traverse es start_ids d dir)))"
proof -
  have "\<exists>f. walk_inv es dir start_ids (0 + d) f (fst (Traverse es start_ids d dir))"
    unfolding Traverse_def Let_def by (rule walk_inv_walk[OF walk_inv_start])
  then show ?thesis
    by (auto simp: walk_inv_def)
qed

theorem Traverse_visits_once_within_depth_witness:
  "fst (Traverse cycle_edges [''u0''] 5 Outgoing) = [(''u0'', 0), (''u1'', 1), (''u2'', 2)] \<and>
   distinct (map fst (fst (Traverse cycle_edges [''u0''] 5 Outgoing))) \<and>
   reach cycle_edges Outgoing [''u0''] 2 ''u2'' \<and>
   \<not> reach cycle_edges Outgoing [''u0''] 1 ''u2'' \<and>
   fst (Traverse cycle_edges [''u0''] 1 Outgoing) = [(''u0'', 0), (''u1'', 1)]"
  using Traverse_visits_once_within_depth [of cycle_edges "[''u0'']" 5 Outgoing]
  by (simp add: Traverse_def Let_def cycle_edges_def neighbours_def eval_nat_numeral)

text \<open>
  C8. \<^verbatim>\<open>search\<close> and \<^verbatim>\<open>briefing\<close> have no error result. Whatever \<^verbatim>\<open>str.lower\<close>
  computes (\<open>lw\<close>): when no stored node contains the lower-cased query in its
  lower-cased title or body, \<^verbatim>\<open>search\<close> returns the empty list; and for every agent id,
  whatever is stored, \<^verbatim>\<open>briefing\<close> returns the non-empty placeholder text.
\<close>

theorem empty_results_are_not_errors:
  "(list_all (\<lambda>n. \<not> node_matches lw (lw query) n) (dict_values (nodes self)) \<longrightarrow>
      search lw self query limit = []) \<and>
   briefing self agent_id compact_flag = ''[Mock briefing for '' @ agent_id @ '']'' \<and>
   briefing self agent_id compact_flag \<noteq> []"
  by (auto simp: search_def Let_def slice_to_def briefing_def list_all_iff filter_empty_conv)

theorem empty_results_are_not_errors_witness:
  "search ascii_lower one_stored ''zyx-no-match-xyz'' 10 = [] \<and>
   briefing one_stored ''kai'' False = ''[Mock briefing for kai]''"
  using empty_results_are_not_errors
    [of ascii_lower "''zyx-no-match-xyz''" one_stored 10 "''kai''" False]
  by (simp add: one_stored_def store_call_def store_def default_call_def
      MockCortex_def Let_def or_str_def or_empty_def dict_values_def node_matches_def ascii_lower_def
      char_lower_def char_of_def bit_0)

text \<open>
  C9. For every node id, depth and direction, and whatever has been stored,
  \<^verbatim>\<open>MockCortex.traverse\<close> returns a result whose node list and edge list are both
  empty.
\<close>

theorem traverse_returns_nothing:
  "tr_nodes (traverse self node_id depth direction) = [] \<and>
   tr_edges (traverse self node_id depth direction) = []"
  by (simp add: traverse_def)

text \<open>
  C10. For every call of \<^verbatim>\<open>MockCortex.store\<close>: every record that was in the store
  under an id other than the returned one is unchanged; the returned id holds the new
  record; and when the id that \<^verbatim>\<open>uuid4\<close> drew is new, as \<^verbatim>\<open>uuid4\<close> promises, the store
  after the call is the store before it followed by exactly that one record.
\<close>

theorem store_frame:
  "(\<forall>k. k \<noteq> fst (store self kind title body tags importance metadata source_agent uuid4) \<longrightarrow>
        dict_get (nodes (snd (store self kind title body tags importance metadata source_agent
                                uuid4))) k = dict_get (nodes self) k) \<and>
   dict_get (nodes (snd (store self kind title body tags importance metadata source_agent uuid4)))
     (fst (store self kind title body tags importance metadata source_agent uuid4)) =
     Some \<lparr>n_id = uuid4, n_kind = kind, n_title = title, n_body = or_str body title,
           n_tags = or_empty tags, n_importance = importance,
           n_metadata = or_empty metadata, n_source_agent = source_agent\<rparr> \<and>
   (uuid4 \<notin> set (dict_keys (nodes self)) \<longrightarrow>
      nodes (snd (store self kind title body tags importance metadata source_agent uuid4)) =
        nodes self @
          [(fst (store self kind title body tags importance metadata source_agent uuid4),
            \<lparr>n_id = uuid4, n_kind = kind, n_title = title, n_body = or_str body title,
             n_tags = or_empty tags, n_importance = importance,
             n_metadata = or_empty metadata, n_source_agent = source_agent\<rparr>)])"
  by (simp add: store_def Let_def dict_get_set dict_set_fresh)

theorem store_frame_witness:
  "dict_get (nodes (snd (store two_stored ''note'' ''Third'' ''Body'' (Some [''t'']) (4 / 5)
        (Some [(''env'', ''test'')]) ''kai'' ''u2''))) ''u0'' = dict_get (nodes two_stored) ''u0'' \<and>
   dict_keys (nodes (snd (store two_stored ''note'' ''Third'' ''Body'' (Some [''t'']) (4 / 5)
        (Some [(''env'', ''test'')]) ''kai'' ''u2''))) = [''u0'', ''u1'', ''u2'']"
  using store_frame [of two_stored "''note''" "''Third''" "''Body''" "Some [''t'']" "4 / 5"
      "Some [(''env'', ''test'')]" "''kai''" "''u2''"]
  by (simp add: two_stored_def run_defs)

end
